theory Spec2Isabelle
  imports Main "HOL-Library.Multiset"
begin

section \<open>JavaScript values\<close>

text \<open>
  The values a row field or a filter-panel entry can hold. Numbers are restricted to
  integers and strings to 8-bit characters; nothing below depends on fractions or on
  characters outside that range.
\<close>

datatype jsval = JUndefined | JNull | JBool bool | JNum int | JStr string

text \<open>Truthiness, as \<^verbatim>\<open>&&\<close>, \<^verbatim>\<open>||\<close> and \<^verbatim>\<open>if\<close> test it.\<close>

fun truthy :: "jsval \<Rightarrow> bool" where
  "truthy JUndefined = False"
| "truthy JNull = False"
| "truthy (JBool b) = b"
| "truthy (JNum n) = (n \<noteq> 0)"
| "truthy (JStr s) = (s \<noteq> [])"

definition digit_char :: "nat \<Rightarrow> char" where
  "digit_char d = ''0123456789'' ! d"

text \<open>\<^verbatim>\<open>Number.prototype.toString\<close> on a non-negative integer: its decimal digits.\<close>

fun show_nat :: "nat \<Rightarrow> string" where
  "show_nat n = (if n < 10 then [digit_char n] else show_nat (n div 10) @ [digit_char (n mod 10)])"

declare show_nat.simps [simp del]

definition show_int :: "int \<Rightarrow> string" where
  "show_int i = (if i < 0 then CHR ''-'' # show_nat (nat (- i)) else show_nat (nat i))"

text \<open>
  \<^verbatim>\<open>v.toString()\<close>. On \<^verbatim>\<open>undefined\<close> and \<^verbatim>\<open>null\<close> the call throws a
  TypeError: the result is \<open>None\<close>.
\<close>

fun js_toString :: "jsval \<Rightarrow> string option" where
  "js_toString JUndefined = None"
| "js_toString JNull = None"
| "js_toString (JBool b) = Some (if b then ''true'' else ''false'')"
| "js_toString (JNum n) = Some (show_int n)"
| "js_toString (JStr s) = Some s"

text \<open>
  \<^verbatim>\<open>v?.toString()\<close>: optional chaining gives \<^verbatim>\<open>undefined\<close> (here \<open>None\<close>) on
  \<^verbatim>\<open>undefined\<close> and \<^verbatim>\<open>null\<close> instead of throwing.
\<close>

definition opt_toString :: "jsval \<Rightarrow> string option" where
  "opt_toString v = js_toString v"

definition js_whitespace :: "char \<Rightarrow> bool" where
  "js_whitespace c = (c \<in> set [CHR '' '', CHR 0x09, CHR 0x0A, CHR 0x0B, CHR 0x0C, CHR 0x0D, CHR 0xA0])"

text \<open>\<^verbatim>\<open>String.prototype.trim\<close>: white space removed at both ends.\<close>

definition js_trim :: "string \<Rightarrow> string" where
  "js_trim s = rev (dropWhile js_whitespace (rev (dropWhile js_whitespace s)))"

section \<open>Rows and their identity\<close>

text \<open>
  A row of the dataset (\<^verbatim>\<open>TData\<close>) is an object: its own properties in order.
  Reading a property that the object does not have gives \<^verbatim>\<open>undefined\<close>.
\<close>

type_synonym tdata = "(string \<times> jsval) list"

definition has_prop :: "tdata \<Rightarrow> string \<Rightarrow> bool" where
  "has_prop row k = (k \<in> set (map fst row))"

definition get_prop :: "tdata \<Rightarrow> string \<Rightarrow> jsval" where
  "get_prop row k = (case map_of row k of None \<Rightarrow> JUndefined | Some v \<Rightarrow> v)"

text \<open>
  The \<^verbatim>\<open>getRowId\<close> option given to the table:
  \<^verbatim>\<open>(row, index) => (row as any).id?.toString() || index.toString()\<close>.
  The left operand of \<^verbatim>\<open>||\<close> is \<^verbatim>\<open>undefined\<close> or a string; it is falsy when
  it is \<^verbatim>\<open>undefined\<close> or the empty string.
\<close>

definition getRowId :: "tdata \<Rightarrow> nat \<Rightarrow> string" where
  "getRowId row index =
     (case opt_toString (get_prop row ''id'') of
        None \<Rightarrow> show_nat index
      | Some s \<Rightarrow> if s \<noteq> [] then s else show_nat index)"

section \<open>Column sizing: the auto-fit clamp\<close>







section \<open>View state and the filter panel\<close>

text \<open>
  \<^verbatim>\<open>ColumnPinningState\<close>: both lists are optional.
\<close>

record column_pinning =
  left :: "string list option"
  right :: "string list option"

text \<open>
  The pieces of state the component keeps with \<^verbatim>\<open>useState\<close>. A sort key is a
  column id with its \<^verbatim>\<open>desc\<close> flag, a column filter a column id with its value.
  \<^verbatim>\<open>filterValues\<close> is enumerated by \<^verbatim>\<open>Object.entries\<close> and the keys of
  \<^verbatim>\<open>rowSelection\<close> are counted by \<^verbatim>\<open>Object.keys\<close>, so each is kept as the list
  of its entries, keys distinct, in enumeration order.
\<close>

record table_state =
  sorting :: "(string \<times> bool) list"
  columnFilters :: "(string \<times> jsval) list"
  columnVisibility :: "string \<rightharpoonup> bool"
  columnPinning :: column_pinning
  rowSelection :: "(string \<times> bool) list"
  globalFilter :: string
  columnSizing :: "string \<rightharpoonup> int"
  filterValues :: "(string \<times> jsval) list"

text \<open>
  The state the component starts in: the arguments of its \<^verbatim>\<open>useState\<close> calls.
\<close>

definition initial_state :: table_state where
  "initial_state =
     \<lparr>sorting = [], columnFilters = [], columnVisibility = Map.empty,
      columnPinning = \<lparr>left = None, right = None\<rparr>, rowSelection = [],
      globalFilter = [], columnSizing = Map.empty, filterValues = []\<rparr>"

text \<open>
  The order in which an object lists its own keys: the keys that are array indices
  (the decimal form, without a leading zero, of an integer below \<open>2^32 - 1\<close>) come
  first, in ascending numeric order; the other keys follow in the order in which
  they were added.
\<close>

definition is_digit :: "char \<Rightarrow> bool" where
  "is_digit c = (c \<in> set ''0123456789'')"

definition key_num :: "string \<Rightarrow> int" where
  "key_num k = foldl (\<lambda>a c. 10 * a + (of_char c - 48)) 0 k"

definition is_index_key :: "string \<Rightarrow> bool" where
  "is_index_key k =
     (k \<noteq> [] \<and> list_all is_digit k
      \<and> (if hd k = CHR ''0'' then k = ''0'' else True)
      \<and> key_num k < 4294967295)"

fun insert_index_key :: "string \<Rightarrow> 'v \<Rightarrow> (string \<times> 'v) list \<Rightarrow> (string \<times> 'v) list" where
  "insert_index_key k v [] = [(k, v)]"
| "insert_index_key k v ((k', v') # rest) =
     (if is_index_key k' \<and> key_num k' < key_num k
      then (k', v') # insert_index_key k v rest
      else (k, v) # (k', v') # rest)"

text \<open>
  \<^verbatim>\<open>{ ...prev, [k]: v }\<close>, as the list of entries \<^verbatim>\<open>Object.entries\<close> gives: an
  existing key keeps its place and takes the new value; a new key that is an
  array index goes to its place among the array indices; any other new key is
  added at the end.
\<close>

definition obj_set :: "(string \<times> 'v) list \<Rightarrow> string \<Rightarrow> 'v \<Rightarrow> (string \<times> 'v) list" where
  "obj_set kvs k v =
     (if k \<in> set (map fst kvs)
      then map (\<lambda>(k', v'). if k' = k then (k', v) else (k', v')) kvs
      else if is_index_key k then insert_index_key k v kvs
      else kvs @ [(k, v)])"

text \<open>\<^verbatim>\<open>delete obj[k]\<close> on a copy of the object.\<close>

definition obj_delete :: "(string \<times> 'v) list \<Rightarrow> string \<Rightarrow> (string \<times> 'v) list" where
  "obj_delete kvs k = filter (\<lambda>(k', v'). k' \<noteq> k) kvs"

text \<open>
  \<^verbatim>\<open>handleFilterChange(filterId, value)\<close> stores one panel value.
\<close>

definition handleFilterChange :: "string \<Rightarrow> jsval \<Rightarrow> table_state \<Rightarrow> table_state" where
  "handleFilterChange filterId v s = s\<lparr>filterValues := obj_set (filterValues s) filterId v\<rparr>"

text \<open>
  The test of \<^verbatim>\<open>handleApplyFilters\<close> on one panel value:
  \<^verbatim>\<open>value && value.toString().trim() !== ''\<close>. The right operand is evaluated
  only for a truthy value, on which \<^verbatim>\<open>toString\<close> does not throw.
\<close>

definition entry_kept :: "jsval \<Rightarrow> bool" where
  "entry_kept v =
     (if truthy v
      then (case js_toString v of None \<Rightarrow> False | Some t \<Rightarrow> js_trim t \<noteq> [])
      else False)"

text \<open>
  \<^verbatim>\<open>Object.entries(filterValues).filter(([_, value]) => ...).map(([id, value]) => ({ id, value }))\<close>
\<close>

definition appliedFilters :: "(string \<times> jsval) list \<Rightarrow> (string \<times> jsval) list" where
  "appliedFilters fv = map (\<lambda>(id, v). (id, v)) (filter (\<lambda>(_, v). entry_kept v) fv)"

text \<open>
  \<^verbatim>\<open>handleApplyFilters\<close>: \<^verbatim>\<open>setColumnFilters(filters)\<close>; the same list is then
  handed to the \<^verbatim>\<open>onFilterApply\<close> callback of the host.
\<close>

definition handleApplyFilters :: "table_state \<Rightarrow> table_state" where
  "handleApplyFilters s = s\<lparr>columnFilters := appliedFilters (filterValues s)\<rparr>"

text \<open>
  \<^verbatim>\<open>handleClearFilters\<close>: \<^verbatim>\<open>setFilterValues({})\<close>,
  \<^verbatim>\<open>setColumnFilters([])\<close>, \<^verbatim>\<open>setGlobalFilter('')\<close>, then the host's
  \<^verbatim>\<open>onClear\<close> callback.
\<close>

definition handleClearFilters :: "table_state \<Rightarrow> table_state" where
  "handleClearFilters s = s\<lparr>filterValues := [], columnFilters := [], globalFilter := []\<rparr>"

text \<open>The search box: \<^verbatim>\<open>setGlobalFilter(e.target.value)\<close>.\<close>

definition setGlobalFilter :: "string \<Rightarrow> table_state \<Rightarrow> table_state" where
  "setGlobalFilter g s = s\<lparr>globalFilter := g\<rparr>"

subsection \<open>The advanced filter panel\<close>

text \<open>
  \<^verbatim>\<open>DateRange\<close> and \<^verbatim>\<open>FilterValue\<close>; every field is optional. A date is kept as
  its time value: only whether it is set matters here (a \<^verbatim>\<open>Date\<close> object is always
  truthy).
\<close>

record date_range =
  range_from :: "int option"
  range_to :: "int option"

record filter_value =
  fv_text :: "string option"
  fv_number :: "int option"
  fv_select :: "string option"
  fv_multiselect :: "string list option"
  fv_date :: "int option"
  fv_daterange :: "date_range option"

definition str_truthy :: "string option \<Rightarrow> bool" where
  "str_truthy x = (case x of None \<Rightarrow> False | Some t \<Rightarrow> t \<noteq> [])"

text \<open>The optional field is not \<^verbatim>\<open>undefined\<close>.\<close>

definition is_set :: "'a option \<Rightarrow> bool" where
  "is_set x = (case x of None \<Rightarrow> False | Some _ \<Rightarrow> True)"

text \<open>
  The body of the predicate inside \<^verbatim>\<open>hasActiveFilters\<close>, on one entry (an entry
  is an object, hence truthy):
  \<^verbatim>\<open>value.text || value.number !== undefined || value.select ||
  (value.multiselect && value.multiselect.length > 0) || value.date ||
  (value.daterange && (value.daterange.from || value.daterange.to))\<close>
\<close>

definition entry_active :: "filter_value \<Rightarrow> bool" where
  "entry_active v =
     (str_truthy (fv_text v)
      \<or> is_set (fv_number v)
      \<or> str_truthy (fv_select v)
      \<or> (case fv_multiselect v of None \<Rightarrow> False | Some xs \<Rightarrow> length xs > 0)
      \<or> is_set (fv_date v)
      \<or> (case fv_daterange v of None \<Rightarrow> False
          | Some r \<Rightarrow> is_set (range_from r) \<or> is_set (range_to r)))"

text \<open>\<^verbatim>\<open>Object.keys(localValues).some(key => ...)\<close>\<close>

definition hasActiveFilters :: "(string \<times> filter_value) list \<Rightarrow> bool" where
  "hasActiveFilters localValues = list_ex (\<lambda>(key, v). entry_active v) localValues"

section \<open>Forced column pinning\<close>

text \<open>
  \<^verbatim>\<open>selectable ? ['select', 'rowNumber'] : ['rowNumber']\<close> and
  \<^verbatim>\<open>rowActions && rowActions.length > 0 ? ['rowActions'] : []\<close>. The configured
  row-action groups are not inspected beyond their number.
\<close>

definition leftPinnedColumns :: "bool \<Rightarrow> string list" where
  "leftPinnedColumns selectable = (if selectable then [''select'', ''rowNumber''] else [''rowNumber''])"

definition rightPinnedColumns :: "'a list \<Rightarrow> string list" where
  "rightPinnedColumns rowActions = (if length rowActions > 0 then [''rowActions''] else [])"

text \<open>\<^verbatim>\<open>xs || []\<close> on an optional array (an array, also an empty one, is truthy).\<close>

definition list_or_empty :: "'a list option \<Rightarrow> 'a list" where
  "list_or_empty x = (case x of None \<Rightarrow> [] | Some xs \<Rightarrow> xs)"

text \<open>
  The \<^verbatim>\<open>columnPinning\<close> entry of the state handed to the table: the state the user
  has built, with the forced columns put in front of each side and removed from
  the user's list of that side.
\<close>

definition effectivePinning :: "bool \<Rightarrow> 'a list \<Rightarrow> column_pinning \<Rightarrow> column_pinning" where
  "effectivePinning selectable rowActions cp =
     cp\<lparr>left := Some (leftPinnedColumns selectable
                     @ filter (\<lambda>id. id \<notin> set (leftPinnedColumns selectable)) (list_or_empty (left cp))),
        right := Some (rightPinnedColumns rowActions
                     @ filter (\<lambda>id. id \<notin> set (rightPinnedColumns rowActions)) (list_or_empty (right cp)))\<rparr>"

section \<open>Row models\<close>

text \<open>
  A row of the table: its identity, the record it shows, and the position of that
  record in the dataset.
\<close>

record lrow =
  row_id :: string
  original :: tdata
  index :: nat

text \<open>
  The core row model: one row for each record of the dataset, in dataset order,
  with the identity \<open>getRowId\<close> gives it.
\<close>

definition getCoreRowModel :: "tdata list \<Rightarrow> lrow list" where
  "getCoreRowModel data =
     map (\<lambda>(i, d). \<lparr>row_id = getRowId d i, original = d, index = i\<rparr>) (enumerate 0 data)"

text \<open>
  What the table library is configured with and the component does not define:
  how one column filter value is matched against a record, how the global search
  term is matched, and the order the sort keys put on two records.
\<close>

record table_lib =
  filterFn :: "string \<Rightarrow> jsval \<Rightarrow> tdata \<Rightarrow> bool"
  globalFilterFn :: "string \<Rightarrow> tdata \<Rightarrow> bool"
  rowLe :: "(string \<times> bool) list \<Rightarrow> tdata \<Rightarrow> tdata \<Rightarrow> bool"

text \<open>
  Modelled from the spec: the test behind the library's \<^verbatim>\<open>getFilteredRowModel\<close>,
  which is not part of the sources. All column filters compose with AND, and a
  non-empty global search term is one more conjunct (spec 4.2); with no column
  filter and an empty search term every record passes.
\<close>

definition row_passes :: "table_lib \<Rightarrow> (string \<times> jsval) list \<Rightarrow> string \<Rightarrow> tdata \<Rightarrow> bool" where
  "row_passes lib cf g d =
     (list_all (\<lambda>(id, v). filterFn lib id v d) cf \<and> (g = [] \<or> globalFilterFn lib g d))"

text \<open>
  Modelled from the spec: the library's \<^verbatim>\<open>getFilteredRowModel\<close>, the rows of the
  core model that pass, in dataset order (spec 4.6: filtering runs before sorting).
\<close>

definition getFilteredRowModel :: "table_lib \<Rightarrow> (string \<times> jsval) list \<Rightarrow> string \<Rightarrow> lrow list \<Rightarrow> lrow list" where
  "getFilteredRowModel lib cf g rows = filter (\<lambda>r. row_passes lib cf g (original r)) rows"

fun insert_by :: "('a \<Rightarrow> 'a \<Rightarrow> bool) \<Rightarrow> 'a \<Rightarrow> 'a list \<Rightarrow> 'a list" where
  "insert_by le x [] = [x]"
| "insert_by le x (y # ys) = (if le x y then x # y # ys else y # insert_by le x ys)"

text \<open>
  Modelled from the spec: the library's \<^verbatim>\<open>getSortedRowModel\<close>, a stable sort of
  the filtered rows by the order of the sort keys (spec 4.3); with no sort key the
  rows stay as they are. The filtered row model itself is not reordered.
\<close>

definition getSortedRowModel :: "table_lib \<Rightarrow> (string \<times> bool) list \<Rightarrow> lrow list \<Rightarrow> lrow list" where
  "getSortedRowModel lib srt rows =
     (if srt = [] then rows
      else foldr (insert_by (\<lambda>a b. rowLe lib srt (original a) (original b))) rows [])"

text \<open>\<^verbatim>\<open>table.getFilteredRowModel().rows\<close> in a state of the component.\<close>

definition filteredRows :: "table_lib \<Rightarrow> table_state \<Rightarrow> tdata list \<Rightarrow> lrow list" where
  "filteredRows lib s data =
     getFilteredRowModel lib (columnFilters s) (globalFilter s) (getCoreRowModel data)"

text \<open>
  \<^verbatim>\<open>table.getRowModel().rows\<close>, the rows the table body renders, top to bottom:
  the filtered rows, sorted.
\<close>

definition renderedRows :: "table_lib \<Rightarrow> table_state \<Rightarrow> tdata list \<Rightarrow> lrow list" where
  "renderedRows lib s data = getSortedRowModel lib (sorting s) (filteredRows lib s data)"

subsection \<open>The row-number cell\<close>

text \<open>\<^verbatim>\<open>Array.prototype.findIndex\<close>: the first index that passes, or -1.\<close>

fun findIndex :: "('a \<Rightarrow> bool) \<Rightarrow> 'a list \<Rightarrow> int" where
  "findIndex P [] = - 1"
| "findIndex P (x # xs) =
     (if P x then 0 else (let i = findIndex P xs in if i < 0 then - 1 else i + 1))"

text \<open>
  The cell of the \<^verbatim>\<open>rowNumber\<close> column:
  \<^verbatim>\<open>const filteredRows = table.getFilteredRowModel().rows\<close>,
  \<^verbatim>\<open>const index = filteredRows.findIndex(r => r.id === row.id)\<close>, and the cell
  shows \<^verbatim>\<open>index + 1\<close>.
\<close>

definition rowNumber_cell :: "lrow list \<Rightarrow> lrow \<Rightarrow> int" where
  "rowNumber_cell rows row = findIndex (\<lambda>r. row_id r = row_id row) rows + 1"

text \<open>The numbers shown in the rendered rows, top to bottom.\<close>

definition rowNumbers :: "table_lib \<Rightarrow> table_state \<Rightarrow> tdata list \<Rightarrow> int list" where
  "rowNumbers lib s data = map (rowNumber_cell (filteredRows lib s data)) (renderedRows lib s data)"

subsection \<open>Row selection\<close>

text \<open>
  Modelled from the spec: \<^verbatim>\<open>row.getIsSelected()\<close> of the library (\<open>isSelected\<close> of
  spec 4.4), not part of the sources: the row's id is a key of the selection state
  with a true value.
\<close>

definition getIsSelected :: "(string \<times> bool) list \<Rightarrow> lrow \<Rightarrow> bool" where
  "getIsSelected sel r = (case map_of sel (row_id r) of None \<Rightarrow> False | Some b \<Rightarrow> b)"

text \<open>
  Modelled from the spec: \<^verbatim>\<open>table.getFilteredSelectedRowModel()\<close> of the library,
  not part of the sources (spec 4.4, \<open>selectedRows\<close>): the rows of the current
  filtered view whose id is selected.
\<close>

definition getFilteredSelectedRowModel :: "(string \<times> bool) list \<Rightarrow> lrow list \<Rightarrow> lrow list" where
  "getFilteredSelectedRowModel sel rows = filter (getIsSelected sel) rows"

text \<open>
  The callback of the \<^verbatim>\<open>selectedRowsData\<close> memo:
  \<^verbatim>\<open>table.getFilteredSelectedRowModel().rows.map(row => row.original)\<close>.
\<close>

definition computeSelectedRows :: "table_lib \<Rightarrow> table_state \<Rightarrow> tdata list \<Rightarrow> tdata list" where
  "computeSelectedRows lib s data =
     map original (getFilteredSelectedRowModel (rowSelection s) (filteredRows lib s data))"

text \<open>
  Modelled from the spec: \<^verbatim>\<open>row.toggleSelected(value)\<close> of the library (\<open>toggle\<close>
  of spec 4.4), not part of the sources, with row selection enabled: the row's id
  is given a true value or removed from the selection state; without an argument
  the row's selection is inverted. The new state goes to \<^verbatim>\<open>setRowSelection\<close>.
\<close>

definition toggleSelected :: "lrow \<Rightarrow> bool option \<Rightarrow> table_state \<Rightarrow> table_state" where
  "toggleSelected r v s =
     (let isSelected = getIsSelected (rowSelection s) r;
          b = (case v of None \<Rightarrow> \<not> isSelected | Some b' \<Rightarrow> b')
      in if isSelected = b then s
         else if b then s\<lparr>rowSelection := obj_set (rowSelection s) (row_id r) True\<rparr>
         else s\<lparr>rowSelection := obj_delete (rowSelection s) (row_id r)\<rparr>)"

text \<open>
  Modelled from the spec: \<^verbatim>\<open>table.getIsAllRowsSelected()\<close> of the library, not part
  of the sources: there are filtered rows, the selection state has a key, and no
  filtered row is unselected.
\<close>

definition getIsAllRowsSelected :: "lrow list \<Rightarrow> (string \<times> bool) list \<Rightarrow> bool" where
  "getIsAllRowsSelected rows sel =
     (length rows > 0 \<and> length sel > 0 \<and> list_all (getIsSelected sel) rows)"

text \<open>
  Modelled from the spec: \<^verbatim>\<open>table.toggleAllRowsSelected(value)\<close> of the library
  (\<open>selectAll(currentlyFilteredRowIds)\<close> of spec 4.4), not part of the sources:
  on, every row of the current filtered view is given a true value; off, every
  row of the current filtered view is removed from the selection state; the other
  keys stay. Without an argument it turns off when all are selected, on otherwise.
\<close>

definition toggleAllRowsSelected :: "lrow list \<Rightarrow> bool option \<Rightarrow> (string \<times> bool) list \<Rightarrow> (string \<times> bool) list" where
  "toggleAllRowsSelected rows v sel =
     (let b = (case v of None \<Rightarrow> \<not> getIsAllRowsSelected rows sel | Some b' \<Rightarrow> b')
      in if b then fold (\<lambda>r m. obj_set m (row_id r) True) rows sel
         else fold (\<lambda>r m. obj_delete m (row_id r)) rows sel)"

text \<open>
  The Select All / Deselect All button: \<^verbatim>\<open>table.toggleAllRowsSelected()\<close> on the
  table in state \<open>s\<close>.
\<close>

definition clickSelectAll :: "table_lib \<Rightarrow> tdata list \<Rightarrow> bool option \<Rightarrow> table_state \<Rightarrow> table_state" where
  "clickSelectAll lib data v s =
     s\<lparr>rowSelection := toggleAllRowsSelected (filteredRows lib s data) v (rowSelection s)\<rparr>"

subsection \<open>The component and its memoized projection\<close>

text \<open>
  The events of the component that touch filters or selection: a click on a row
  or on its checkbox (\<^verbatim>\<open>row.toggleSelected\<close>), the Select All button, the Clear
  Selection button (\<^verbatim>\<open>setRowSelection({})\<close>), typing in a field of the filter
  panel (\<^verbatim>\<open>handleFilterChange(config.id, e.target.value)\<close>, always a string), typing
  in the search box, Apply Filters and Clear All.
\<close>

datatype action =
    ToggleRow lrow "bool option"
  | ToggleAllRows "bool option"
  | ClearSelection
  | FilterInput string string
  | SearchInput string
  | ApplyFilters
  | ClearFilters

fun perform :: "table_lib \<Rightarrow> tdata list \<Rightarrow> action \<Rightarrow> table_state \<Rightarrow> table_state" where
  "perform lib data (ToggleRow r v) s = toggleSelected r v s"
| "perform lib data (ToggleAllRows v) s = clickSelectAll lib data v s"
| "perform lib data ClearSelection s = s\<lparr>rowSelection := []\<rparr>"
| "perform lib data (FilterInput k t) s = handleFilterChange k (JStr t) s"
| "perform lib data (SearchInput g) s = setGlobalFilter g s"
| "perform lib data ApplyFilters s = handleApplyFilters s"
| "perform lib data ClearFilters s = handleClearFilters s"

text \<open>
  Whether the event gives \<^verbatim>\<open>rowSelection\<close> a new object. Toggling a row to the
  state it already has returns the old object; the other selection events always
  build a new one; the filter events do not call \<^verbatim>\<open>setRowSelection\<close>.
\<close>

fun replacesSelection :: "action \<Rightarrow> table_state \<Rightarrow> bool" where
  "replacesSelection (ToggleRow r v) s =
     (case v of None \<Rightarrow> True | Some b \<Rightarrow> getIsSelected (rowSelection s) r \<noteq> b)"
| "replacesSelection (ToggleAllRows v) s = True"
| "replacesSelection ClearSelection s = True"
| "replacesSelection (FilterInput k t) s = False"
| "replacesSelection (SearchInput g) s = False"
| "replacesSelection ApplyFilters s = False"
| "replacesSelection ClearFilters s = False"

text \<open>
  The component between two events: its state and the value of
  \<^verbatim>\<open>const selectedRowsData = useMemo(() => ..., [rowSelection, table])\<close>.
  The callback runs on the first render and, later, only on a render in which a
  dependency is a new object. \<^verbatim>\<open>table\<close> is the one instance
  \<^verbatim>\<open>useReactTable\<close> keeps for the life of the component, so the value is
  recomputed exactly when \<^verbatim>\<open>rowSelection\<close> is a new object, from the state of that
  render, and is kept as it is by every other event.
\<close>

record component =
  tstate :: table_state
  selectedRowsData :: "tdata list"

definition mount :: "table_lib \<Rightarrow> tdata list \<Rightarrow> component" where
  "mount lib data =
     \<lparr>tstate = initial_state, selectedRowsData = computeSelectedRows lib initial_state data\<rparr>"

definition step :: "table_lib \<Rightarrow> tdata list \<Rightarrow> action \<Rightarrow> component \<Rightarrow> component" where
  "step lib data a c =
     \<lparr>tstate = perform lib data a (tstate c),
      selectedRowsData =
        (if replacesSelection a (tstate c)
         then computeSelectedRows lib (perform lib data a (tstate c)) data
         else selectedRowsData c)\<rparr>"

definition run :: "table_lib \<Rightarrow> tdata list \<Rightarrow> action list \<Rightarrow> component \<Rightarrow> component" where
  "run lib data acts c = fold (step lib data) acts c"

section \<open>A sample table\<close>

text \<open>
  A small table on which the model is evaluated: column filters match by equality,
  the global search matches the name, and the first sort key orders numerically.
\<close>

fun num_val :: "jsval \<Rightarrow> int" where
  "num_val (JNum n) = n"
| "num_val _ = 0"

definition sample_lib :: table_lib where
  "sample_lib =
     \<lparr>filterFn = (\<lambda>id v d. get_prop d id = v),
      globalFilterFn = (\<lambda>g d. get_prop d ''name'' = JStr g),
      rowLe = (\<lambda>srt a b. case srt of [] \<Rightarrow> True
                 | (k, desc) # _ \<Rightarrow>
                     if desc then num_val (get_prop b k) \<le> num_val (get_prop a k)
                     else num_val (get_prop a k) \<le> num_val (get_prop b k))\<rparr>"

definition sample_data :: "tdata list" where
  "sample_data =
     [[(''id'', JStr ''a''), (''name'', JStr ''ann''), (''dept'', JStr ''eng''), (''age'', JNum 30)],
      [(''id'', JStr ''b''), (''name'', JStr ''bob''), (''dept'', JStr ''ops''), (''age'', JNum 20)],
      [(''id'', JStr ''c''), (''name'', JStr ''cy''), (''dept'', JStr ''eng''), (''age'', JNum 10)]]"

definition sample_state :: table_state where
  "sample_state = initial_state\<lparr>columnFilters := [(''dept'', JStr ''eng'')], sorting := [(''age'', False)]\<rparr>"

text \<open>
  A dataset in which a record without an id takes its position as identity and
  collides with the id of another record.
\<close>

definition colliding_data :: "tdata list" where
  "colliding_data =
     [[(''id'', JStr ''1''), (''dept'', JStr ''ops'')],
      [(''dept'', JStr ''eng'')]]"

section \<open>Properties\<close>

subsection \<open>Row identity\<close>

lemma show_nat_3: "show_nat 3 = ''3''"
  by (simp add: show_nat.simps digit_char_def)

text \<open>
  C9, as stated, fails: the row \<^verbatim>\<open>{ id: "" }\<close> at position 3 has an \<^verbatim>\<open>id\<close>
  field, whose string form is the empty string, and its identity is the index-derived
  \<^verbatim>\<open>"3"\<close>.
\<close>

theorem getRowId_empty_id_counterexample:
  "has_prop [(''id'', JStr '''')] ''id''
   \<and> js_toString (get_prop [(''id'', JStr '''')] ''id'') = Some ''''
   \<and> getRowId [(''id'', JStr '''')] 3 = show_nat 3
   \<and> getRowId [(''id'', JStr '''')] 3 \<noteq> ''''"
  by (simp add: has_prop_def get_prop_def getRowId_def opt_toString_def show_nat_3)

text \<open>
  C9, amended: the identity of a row is the string form of its \<^verbatim>\<open>id\<close> field
  whenever that field holds a value other than \<^verbatim>\<open>undefined\<close> and \<^verbatim>\<open>null\<close>
  whose string form is not empty; in every other case (no \<^verbatim>\<open>id\<close> field, an
  \<^verbatim>\<open>undefined\<close> or \<^verbatim>\<open>null\<close> one, or one whose string form is empty) it is
  the decimal form of the row's position in the original array.
\<close>

theorem getRowId_amended:
  "(js_toString (get_prop row ''id'') = Some s \<and> s \<noteq> [] \<longrightarrow> getRowId row i = s)
   \<and> (js_toString (get_prop row ''id'') = None \<or> js_toString (get_prop row ''id'') = Some []
        \<longrightarrow> getRowId row i = show_nat i)
   \<and> (\<not> has_prop row ''id'' \<longrightarrow> getRowId row i = show_nat i)"
proof -
  have absent: "get_prop row ''id'' = JUndefined" if "\<not> has_prop row ''id''"
  proof -
    from that have "map_of row ''id'' = None"
      by (simp add: has_prop_def map_of_eq_None_iff)
    then show ?thesis by (simp add: get_prop_def)
  qed
  show ?thesis
    using absent by (auto simp: getRowId_def opt_toString_def)
qed

theorem getRowId_amended_witness:
  "getRowId [(''id'', JNum 0)] 5 = ''0''
   \<and> getRowId [(''id'', JNull)] 5 = ''5''
   \<and> getRowId [(''name'', JStr ''x'')] 5 = ''5''"
proof -
  have a: "js_toString (get_prop [(''id'', JNum 0)] ''id'') = Some ''0'' \<and> ''0'' \<noteq> []"
    by (simp add: get_prop_def show_int_def show_nat.simps digit_char_def)
  have b: "js_toString (get_prop [(''id'', JNull)] ''id'') = None"
    by (simp add: get_prop_def)
  have c: "\<not> has_prop [(''name'', JStr ''x'')] ''id''"
    by (simp add: has_prop_def)
  have five: "show_nat 5 = ''5''"
    by (simp add: show_nat.simps digit_char_def)
  show ?thesis
    using getRowId_amended [of "[(''id'', JNum 0)]" "''0''" 5] a
      getRowId_amended [of "[(''id'', JNull)]" "''''" 5] b
      getRowId_amended [of "[(''name'', JStr ''x'')]" "''''" 5] c five
    by simp
qed

subsection \<open>The auto-fit clamp\<close>



subsection \<open>Clearing and applying filters\<close>

text \<open>
  C7: clearing the filters empties the column filters and the global search term
  (and the panel's own values), and leaves row selection, sort keys, column
  pinning, column sizing and column visibility as they were.
\<close>

theorem handleClearFilters_frame:
  "columnFilters (handleClearFilters s) = []
   \<and> globalFilter (handleClearFilters s) = []
   \<and> filterValues (handleClearFilters s) = []
   \<and> rowSelection (handleClearFilters s) = rowSelection s
   \<and> sorting (handleClearFilters s) = sorting s
   \<and> columnPinning (handleClearFilters s) = columnPinning s
   \<and> columnSizing (handleClearFilters s) = columnSizing s
   \<and> columnVisibility (handleClearFilters s) = columnVisibility s"
  by (simp add: handleClearFilters_def)

lemma set_insert_index_key:
  "set (insert_index_key k v kvs) = insert (k, v) (set kvs)"
  by (induction kvs) (auto split: if_splits)

lemma obj_set_value: "(k, w) \<in> set (obj_set kvs k v) \<Longrightarrow> w = v"
  by (force simp: obj_set_def set_insert_index_key split: if_splits)

lemma obj_set_other:
  "(k', w) \<in> set (obj_set kvs k v) \<Longrightarrow> w = v \<or> (k', w) \<in> set kvs"
  by (force simp: obj_set_def set_insert_index_key split: if_splits)

lemma appliedFilters_filter:
  "appliedFilters fv = filter (\<lambda>e. entry_kept (snd e)) fv"
  by (induction fv) (auto simp: appliedFilters_def)

lemma appliedFilters_set:
  "set (appliedFilters fv) = {e \<in> set fv. entry_kept (snd e)}"
  by (simp add: appliedFilters_filter)

lemma not_kept_empty_string: "\<not> entry_kept (JStr [])"
  by (simp add: entry_kept_def)

lemma columnFilters_apply:
  "columnFilters (handleApplyFilters s) = appliedFilters (filterValues s)"
  by (simp add: handleApplyFilters_def)

lemma filterValues_change:
  "filterValues (handleFilterChange k v s) = obj_set (filterValues s) k v"
  by (simp add: handleFilterChange_def)

lemma dropWhile_all: "(\<forall>c \<in> set t. P c) \<Longrightarrow> dropWhile P t = []"
  by (induction t) auto

lemma dropWhile_some: "\<not> (\<forall>c \<in> set t. P c) \<Longrightarrow> dropWhile P t \<noteq> []"
  by (induction t) auto

lemma js_trim_empty_iff: "js_trim t = [] \<longleftrightarrow> (\<forall>c \<in> set t. js_whitespace c)"
proof
  assume e: "js_trim t = []"
  show "\<forall>c \<in> set t. js_whitespace c"
  proof (rule ccontr)
    assume "\<not> (\<forall>c \<in> set t. js_whitespace c)"
    then have ne: "dropWhile js_whitespace t \<noteq> []"
      by (rule dropWhile_some)
    then have "\<not> js_whitespace (hd (dropWhile js_whitespace t))"
      by (rule hd_dropWhile)
    moreover from ne have "hd (dropWhile js_whitespace t) \<in> set (rev (dropWhile js_whitespace t))"
      by simp
    ultimately have "\<not> (\<forall>c \<in> set (rev (dropWhile js_whitespace t)). js_whitespace c)"
      by blast
    then have "dropWhile js_whitespace (rev (dropWhile js_whitespace t)) \<noteq> []"
      by (rule dropWhile_some)
    with e show False by (simp add: js_trim_def)
  qed
next
  assume "\<forall>c \<in> set t. js_whitespace c"
  then have "dropWhile js_whitespace t = []"
    by (rule dropWhile_all)
  then show "js_trim t = []" by (simp only: js_trim_def rev.simps dropWhile.simps)
qed

lemma entry_kept_text: "entry_kept (JStr t) \<longleftrightarrow> (\<exists>c \<in> set t. \<not> js_whitespace c)"
proof -
  have "entry_kept (JStr t) \<longleftrightarrow> t \<noteq> [] \<and> js_trim t \<noteq> []"
    by (simp add: entry_kept_def)
  also have "\<dots> \<longleftrightarrow> (\<exists>c \<in> set t. \<not> js_whitespace c)"
    by (auto simp: js_trim_empty_iff)
  finally show ?thesis .
qed

text \<open>
  C10: applying the filters replaces the column filters by those derived from the
  panel values. The result does not depend on the filters applied before; every
  filter in it is an entry of the panel; every panel entry whose text has a
  character that is not white space is in it; it is the list of the panel entries
  that pass the test, in panel order; and a column whose panel value has been
  emptied has no filter afterwards, whatever was applied before.
\<close>

theorem handleApplyFilters_replaces:
  "columnFilters (handleApplyFilters (s\<lparr>columnFilters := previous\<rparr>))
     = columnFilters (handleApplyFilters s)
   \<and> set (columnFilters (handleApplyFilters s)) = {e \<in> set (filterValues s). entry_kept (snd e)}
   \<and> columnFilters (handleApplyFilters s) = filter (\<lambda>e. entry_kept (snd e)) (filterValues s)
   \<and> k \<notin> set (map fst (columnFilters
          (handleApplyFilters (handleFilterChange k (JStr []) (s\<lparr>columnFilters := previous\<rparr>)))))
   \<and> ((k, JStr t) \<in> set (filterValues s) \<and> (\<exists>c \<in> set t. \<not> js_whitespace c) \<longrightarrow>
        (k, JStr t) \<in> set (columnFilters (handleApplyFilters (s\<lparr>columnFilters := previous\<rparr>))))
   \<and> ((k, v) \<in> set (columnFilters (handleApplyFilters (s\<lparr>columnFilters := previous\<rparr>))) \<longrightarrow>
        (k, v) \<in> set (filterValues s))"
proof -
  have indep: "columnFilters (handleApplyFilters (s\<lparr>columnFilters := previous\<rparr>))
      = columnFilters (handleApplyFilters s)"
    by (simp add: columnFilters_apply)
  have exact: "set (columnFilters (handleApplyFilters s))
      = {e \<in> set (filterValues s). entry_kept (snd e)}"
    by (simp only: columnFilters_apply appliedFilters_set)
  have as_filter: "columnFilters (handleApplyFilters s)
      = filter (\<lambda>e. entry_kept (snd e)) (filterValues s)"
    by (simp only: columnFilters_apply appliedFilters_filter)
  have emptied: "k \<notin> set (map fst (columnFilters
      (handleApplyFilters (handleFilterChange k (JStr []) (s\<lparr>columnFilters := previous\<rparr>)))))"
  proof
    assume "k \<in> set (map fst (columnFilters
      (handleApplyFilters (handleFilterChange k (JStr []) (s\<lparr>columnFilters := previous\<rparr>)))))"
    then have "k \<in> fst ` set (appliedFilters (obj_set (filterValues s) k (JStr [])))"
      by (simp add: columnFilters_apply filterValues_change)
    then obtain w where w: "(k, w) \<in> set (appliedFilters (obj_set (filterValues s) k (JStr [])))"
      by force
    then have mem: "(k, w) \<in> set (obj_set (filterValues s) k (JStr []))" and kept: "entry_kept w"
      by (simp_all add: appliedFilters_set)
    from mem have "w = JStr []" by (rule obj_set_value)
    with kept show False
      by (simp add: not_kept_empty_string)
  qed
  have keeps: "(k, JStr t) \<in> set (filterValues s) \<and> (\<exists>c \<in> set t. \<not> js_whitespace c) \<longrightarrow>
      (k, JStr t) \<in> set (columnFilters (handleApplyFilters (s\<lparr>columnFilters := previous\<rparr>)))"
    by (simp add: columnFilters_apply appliedFilters_set entry_kept_text)
  have derived: "(k, v) \<in> set (columnFilters (handleApplyFilters (s\<lparr>columnFilters := previous\<rparr>))) \<longrightarrow>
      (k, v) \<in> set (filterValues s)"
    by (simp add: columnFilters_apply appliedFilters_set)
  show ?thesis by (intro conjI indep exact as_filter emptied keeps derived)
qed

lemma sample_panel_entry:
  "(''name'', JStr ''ann'') \<in> set (filterValues
      (handleFilterChange ''email'' (JStr [])
        (handleFilterChange ''name'' (JStr ''ann'') initial_state)))
   \<and> (\<exists>c \<in> set ''ann''. \<not> js_whitespace c)"
  by code_simp

theorem handleApplyFilters_replaces_witness:
  "columnFilters (handleApplyFilters
      ((handleFilterChange ''email'' (JStr [])
         (handleFilterChange ''name'' (JStr ''ann'') initial_state))
       \<lparr>columnFilters := [(''email'', JStr ''x@y''), (''dept'', JStr ''ops'')]\<rparr>))
     = [(''name'', JStr ''ann'')]
   \<and> (''name'', JStr ''ann'') \<in> set (columnFilters (handleApplyFilters
      ((handleFilterChange ''email'' (JStr [])
         (handleFilterChange ''name'' (JStr ''ann'') initial_state))
       \<lparr>columnFilters := [(''email'', JStr ''x@y''), (''dept'', JStr ''ops'')]\<rparr>)))"
proof -
  have result: "columnFilters (handleApplyFilters
      ((handleFilterChange ''email'' (JStr [])
         (handleFilterChange ''name'' (JStr ''ann'') initial_state))
       \<lparr>columnFilters := [(''email'', JStr ''x@y''), (''dept'', JStr ''ops'')]\<rparr>))
     = [(''name'', JStr ''ann'')]"
    by code_simp
  have kept: "(''name'', JStr ''ann'') \<in> set (columnFilters (handleApplyFilters
      ((handleFilterChange ''email'' (JStr [])
         (handleFilterChange ''name'' (JStr ''ann'') initial_state))
       \<lparr>columnFilters := [(''email'', JStr ''x@y''), (''dept'', JStr ''ops'')]\<rparr>)))"
    using handleApplyFilters_replaces [where
        s = "handleFilterChange ''email'' (JStr []) (handleFilterChange ''name'' (JStr ''ann'') initial_state)"
        and previous = "[(''email'', JStr ''x@y''), (''dept'', JStr ''ops'')]"
        and k = "''name''" and t = "''ann''" and v = "JStr ''ann''"]
      sample_panel_entry
    by (elim conjE) (erule mp, intro conjI; assumption)
  from result kept show ?thesis by (rule conjI)
qed

subsection \<open>Which panel values become filters\<close>

text \<open>
  The filter panel writes strings only: in every state the component reaches from
  its first render, each panel value is a string.
\<close>

lemma filterValues_perform:
  "(\<forall>e \<in> set (filterValues s). \<exists>t. snd e = JStr t) \<Longrightarrow>
   (\<forall>e \<in> set (filterValues (perform lib data a s)). \<exists>t. snd e = JStr t)"
proof (cases a)
  case (FilterInput k t)
  assume old: "\<forall>e \<in> set (filterValues s). \<exists>t. snd e = JStr t"
  show ?thesis
  proof
    fix e assume "e \<in> set (filterValues (perform lib data a s))"
    then have "(fst e, snd e) \<in> set (obj_set (filterValues s) k (JStr t))"
      using FilterInput by (simp add: filterValues_change)
    then have "snd e = JStr t \<or> (fst e, snd e) \<in> set (filterValues s)"
      by (rule obj_set_other)
    with old show "\<exists>t. snd e = JStr t" by auto
  qed
qed (simp_all add: toggleSelected_def clickSelectAll_def setGlobalFilter_def
      handleApplyFilters_def handleClearFilters_def Let_def)

lemma filterValues_run:
  "(\<forall>e \<in> set (filterValues (tstate c)). \<exists>t. snd e = JStr t) \<Longrightarrow>
   (\<forall>e \<in> set (filterValues (tstate (run lib data acts c))). \<exists>t. snd e = JStr t)"
proof (induction acts arbitrary: c)
  case Nil
  then show ?case by (simp add: run_def)
next
  case (Cons a acts)
  from Cons.prems
  have "\<forall>e \<in> set (filterValues (tstate (step lib data a c))). \<exists>t. snd e = JStr t"
    using filterValues_perform [of "tstate c" lib data a] by (simp add: step_def)
  from Cons.IH [OF this] show ?case by (simp add: run_def)
qed

lemma filterValues_reachable:
  "\<forall>e \<in> set (filterValues (tstate (run lib data acts (mount lib data)))). \<exists>t. snd e = JStr t"
  by (rule filterValues_run) (simp add: mount_def initial_state_def)

text \<open>
  C5, as stated, fails: a panel entry holding one blank is not empty, and applying
  the filters leaves it out.
\<close>

theorem handleApplyFilters_blank_counterexample:
  "filterValues (tstate (run sample_lib sample_data [FilterInput ''name'' '' ''] (mount sample_lib sample_data)))
     = [(''name'', JStr '' '')]
   \<and> '' '' \<noteq> ''''
   \<and> columnFilters (tstate (run sample_lib sample_data [FilterInput ''name'' '' '', ApplyFilters]
        (mount sample_lib sample_data))) = []"
  by code_simp

text \<open>
  C5, amended: a filter value of the advanced panel is active if and only if its
  payload is not empty: a non-empty text, a defined number (0 included), a
  non-empty selection, a non-empty set, a date, or a date range with a bound; the
  panel has active filters if and only if one of its entries is active. Applying
  the filters of the filter panel, whose values are texts, keeps exactly the
  entries whose text has a character that is not white space: an entry that is
  empty or all white space is left out and contributes no filter.
\<close>

theorem active_and_applied_filters:
  "(entry_active v \<longleftrightarrow>
      (\<exists>t. fv_text v = Some t \<and> t \<noteq> []) \<or> (\<exists>n. fv_number v = Some n)
      \<or> (\<exists>t. fv_select v = Some t \<and> t \<noteq> []) \<or> (\<exists>xs. fv_multiselect v = Some xs \<and> xs \<noteq> [])
      \<or> (\<exists>d. fv_date v = Some d)
      \<or> (\<exists>r. fv_daterange v = Some r \<and> (\<exists>d. range_from r = Some d \<or> range_to r = Some d)))
   \<and> (hasActiveFilters localValues \<longleftrightarrow> (\<exists>e \<in> set localValues. entry_active (snd e)))
   \<and> ((k, JStr t) \<in> set (columnFilters (handleApplyFilters s)) \<longleftrightarrow>
        (k, JStr t) \<in> set (filterValues s) \<and> (\<exists>c \<in> set t. \<not> js_whitespace c))
   \<and> ((\<forall>e \<in> set (filterValues s). \<exists>t. snd e = JStr t) \<longrightarrow>
        columnFilters (handleApplyFilters s)
          = filter (\<lambda>e. \<exists>t. snd e = JStr t \<and> (\<exists>c \<in> set t. \<not> js_whitespace c)) (filterValues s))"
proof -
  have act: "entry_active v \<longleftrightarrow>
      (\<exists>t. fv_text v = Some t \<and> t \<noteq> []) \<or> (\<exists>n. fv_number v = Some n)
      \<or> (\<exists>t. fv_select v = Some t \<and> t \<noteq> []) \<or> (\<exists>xs. fv_multiselect v = Some xs \<and> xs \<noteq> [])
      \<or> (\<exists>d. fv_date v = Some d)
      \<or> (\<exists>r. fv_daterange v = Some r \<and> (\<exists>d. range_from r = Some d \<or> range_to r = Some d))"
    by (auto simp: entry_active_def str_truthy_def is_set_def split: option.splits)
  have has: "hasActiveFilters localValues \<longleftrightarrow> (\<exists>e \<in> set localValues. entry_active (snd e))"
    by (simp add: hasActiveFilters_def list_ex_iff case_prod_beta)
  have mem: "(k, JStr t) \<in> set (columnFilters (handleApplyFilters s)) \<longleftrightarrow>
      (k, JStr t) \<in> set (filterValues s) \<and> (\<exists>c \<in> set t. \<not> js_whitespace c)"
    by (simp add: columnFilters_apply appliedFilters_set entry_kept_text)
  have lst: "(\<forall>e \<in> set (filterValues s). \<exists>t. snd e = JStr t) \<longrightarrow>
      columnFilters (handleApplyFilters s)
        = filter (\<lambda>e. \<exists>t. snd e = JStr t \<and> (\<exists>c \<in> set t. \<not> js_whitespace c)) (filterValues s)"
  proof
    assume strs: "\<forall>e \<in> set (filterValues s). \<exists>t. snd e = JStr t"
    have "filter (\<lambda>e. entry_kept (snd e)) (filterValues s)
        = filter (\<lambda>e. \<exists>t. snd e = JStr t \<and> (\<exists>c \<in> set t. \<not> js_whitespace c)) (filterValues s)"
    proof (rule filter_cong [OF refl])
      fix e assume "e \<in> set (filterValues s)"
      with strs obtain t where "snd e = JStr t" by blast
      then show "entry_kept (snd e) = (\<exists>t. snd e = JStr t \<and> (\<exists>c \<in> set t. \<not> js_whitespace c))"
        by (simp add: entry_kept_text)
    qed
    then show "columnFilters (handleApplyFilters s)
        = filter (\<lambda>e. \<exists>t. snd e = JStr t \<and> (\<exists>c \<in> set t. \<not> js_whitespace c)) (filterValues s)"
      by (simp only: columnFilters_apply appliedFilters_filter)
  qed
  show ?thesis by (intro conjI act has mem lst)
qed

theorem active_and_applied_filters_witness:
  "columnFilters (tstate (run sample_lib sample_data
      [FilterInput ''name'' ''ann'', FilterInput ''email'' '''', FilterInput ''dept'' '' '',
       FilterInput ''age'' ''0'', ApplyFilters] (mount sample_lib sample_data)))
     = [(''name'', JStr ''ann''), (''age'', JStr ''0'')]
   \<and> (''age'', JStr ''0'') \<in> set (columnFilters (handleApplyFilters (tstate (run sample_lib sample_data
      [FilterInput ''name'' ''ann'', FilterInput ''email'' '''', FilterInput ''dept'' '' '',
       FilterInput ''age'' ''0''] (mount sample_lib sample_data)))))
   \<and> entry_active \<lparr>fv_text = None, fv_number = Some 0, fv_select = None,
        fv_multiselect = None, fv_date = None, fv_daterange = None\<rparr>
   \<and> entry_active \<lparr>fv_text = Some [], fv_number = None, fv_select = None, fv_multiselect = Some [],
        fv_date = None, fv_daterange = Some \<lparr>range_from = None, range_to = None\<rparr>\<rparr> = False"
proof -
  have result: "columnFilters (tstate (run sample_lib sample_data
      [FilterInput ''name'' ''ann'', FilterInput ''email'' '''', FilterInput ''dept'' '' '',
       FilterInput ''age'' ''0'', ApplyFilters] (mount sample_lib sample_data)))
     = [(''name'', JStr ''ann''), (''age'', JStr ''0'')]"
    by code_simp
  have entry: "(''age'', JStr ''0'') \<in> set (filterValues (tstate (run sample_lib sample_data
      [FilterInput ''name'' ''ann'', FilterInput ''email'' '''', FilterInput ''dept'' '' '',
       FilterInput ''age'' ''0''] (mount sample_lib sample_data))))
     \<and> (\<exists>c \<in> set ''0''. \<not> js_whitespace c)"
    by code_simp
  have kept: "(''age'', JStr ''0'') \<in> set (columnFilters (handleApplyFilters (tstate (run sample_lib sample_data
      [FilterInput ''name'' ''ann'', FilterInput ''email'' '''', FilterInput ''dept'' '' '',
       FilterInput ''age'' ''0''] (mount sample_lib sample_data)))))"
    by (rule active_and_applied_filters [where k = "''age''" and t = "''0''"
        and s = "tstate (run sample_lib sample_data
          [FilterInput ''name'' ''ann'', FilterInput ''email'' '''', FilterInput ''dept'' '' '',
           FilterInput ''age'' ''0''] (mount sample_lib sample_data))",
        THEN conjunct2, THEN conjunct2, THEN conjunct1, THEN iffD2, OF entry])
  have zero: "entry_active \<lparr>fv_text = None, fv_number = Some 0, fv_select = None,
        fv_multiselect = None, fv_date = None, fv_daterange = None\<rparr>"
    by code_simp
  have empties: "entry_active \<lparr>fv_text = Some [], fv_number = None, fv_select = None,
        fv_multiselect = Some [], fv_date = None,
        fv_daterange = Some \<lparr>range_from = None, range_to = None\<rparr>\<rparr> = False"
    by code_simp
  show ?thesis by (intro conjI result kept zero empties)
qed

subsection \<open>Forced pinning\<close>

text \<open>
  C4: whatever pinning state the pin, unpin, hide and unpin-all operations have
  produced, in the pinning handed to the table the selection column and the
  row-number column are the first two left-pinned columns, in that order, when
  selection is enabled, the row-number column is the first one when it is not,
  and the row-actions column is the first right-pinned column when row actions
  are configured; the forced columns occur nowhere else on their side, and the
  user's other pins follow in their own order.
\<close>

theorem effectivePinning_forced_first:
  "(selectable \<longrightarrow>
      take 2 (list_or_empty (left (effectivePinning selectable rowActions cp))) = [''select'', ''rowNumber''])
   \<and> (\<not> selectable \<longrightarrow>
      take 1 (list_or_empty (left (effectivePinning selectable rowActions cp))) = [''rowNumber''])
   \<and> (rowActions \<noteq> [] \<longrightarrow>
      take 1 (list_or_empty (right (effectivePinning selectable rowActions cp))) = [''rowActions''])
   \<and> drop (length (leftPinnedColumns selectable))
        (list_or_empty (left (effectivePinning selectable rowActions cp)))
      = filter (\<lambda>id. id \<notin> set (leftPinnedColumns selectable)) (list_or_empty (left cp))
   \<and> drop (length (rightPinnedColumns rowActions))
        (list_or_empty (right (effectivePinning selectable rowActions cp)))
      = filter (\<lambda>id. id \<notin> set (rightPinnedColumns rowActions)) (list_or_empty (right cp))
   \<and> count_list (list_or_empty (left (effectivePinning selectable rowActions cp))) ''rowNumber'' = 1
   \<and> (selectable \<longrightarrow>
      count_list (list_or_empty (left (effectivePinning selectable rowActions cp))) ''select'' = 1)
   \<and> (rowActions \<noteq> [] \<longrightarrow>
      count_list (list_or_empty (right (effectivePinning selectable rowActions cp))) ''rowActions'' = 1)"
proof -
  have absent: "count_list (filter (\<lambda>id. id \<notin> set fs) xs) f = 0" if "f \<in> set fs"
    for fs xs and f :: string
    using that by (induction xs) auto
  show ?thesis
    by (simp add: effectivePinning_def list_or_empty_def leftPinnedColumns_def
        rightPinnedColumns_def absent)
qed

theorem effectivePinning_forced_first_witness:
  "left (effectivePinning True [()] \<lparr>left = Some [''email'', ''rowNumber'', ''select''], right = Some [''status'']\<rparr>)
     = Some [''select'', ''rowNumber'', ''email'']
   \<and> right (effectivePinning True [()] \<lparr>left = Some [''email'', ''rowNumber'', ''select''], right = Some [''status'']\<rparr>)
     = Some [''rowActions'', ''status'']
   \<and> take 1 (list_or_empty (left (effectivePinning False ([]::unit list) \<lparr>left = Some [''email''], right = None\<rparr>)))
     = [''rowNumber'']"
proof -
  have "left (effectivePinning True [()] \<lparr>left = Some [''email'', ''rowNumber'', ''select''], right = Some [''status'']\<rparr>)
     = Some [''select'', ''rowNumber'', ''email'']"
    by (simp add: effectivePinning_def list_or_empty_def leftPinnedColumns_def)
  moreover have "right (effectivePinning True [()] \<lparr>left = Some [''email'', ''rowNumber'', ''select''], right = Some [''status'']\<rparr>)
     = Some [''rowActions'', ''status'']"
    by (simp add: effectivePinning_def list_or_empty_def rightPinnedColumns_def)
  moreover have "take 1 (list_or_empty (left (effectivePinning False ([]::unit list) \<lparr>left = Some [''email''], right = None\<rparr>)))
     = [''rowNumber'']"
    using effectivePinning_forced_first [of False "[]::unit list" "\<lparr>left = Some [''email''], right = None\<rparr>"]
    by simp
  ultimately show ?thesis
    using effectivePinning_forced_first [of True "[()]" "\<lparr>left = Some [''email'', ''rowNumber'', ''select''], right = Some [''status'']\<rparr>"]
    by simp
qed

subsection \<open>Row numbers\<close>

lemma mset_insert_by: "mset (insert_by le x ys) = add_mset x (mset ys)"
  by (induction ys) simp_all

lemma mset_foldr_insert_by: "mset (foldr (insert_by le) xs []) = mset xs"
  by (induction xs) (simp_all add: mset_insert_by)

lemma mset_getSortedRowModel: "mset (getSortedRowModel lib srt rows) = mset rows"
  by (simp add: getSortedRowModel_def mset_foldr_insert_by)

lemma mset_renderedRows: "mset (renderedRows lib s data) = mset (filteredRows lib s data)"
  by (simp add: renderedRows_def mset_getSortedRowModel)

lemma findIndex_ge: "- 1 \<le> findIndex P xs"
  by (induction xs) (simp_all add: Let_def)

lemma findIndex_nth:
  "distinct (map f xs) \<Longrightarrow> i < length xs \<Longrightarrow> findIndex (\<lambda>r. f r = f (xs ! i)) xs = int i"
proof (induction xs arbitrary: i)
  case Nil
  then show ?case by simp
next
  case (Cons x xs)
  show ?case
  proof (cases i)
    case 0
    then show ?thesis by simp
  next
    case (Suc j)
    with Cons.prems have j: "j < length xs" and d: "distinct (map f xs)"
      and nx: "f x \<notin> f ` set xs"
      by simp_all
    from j nx have "f x \<noteq> f (xs ! j)"
      by (metis imageI nth_mem)
    moreover from Cons.IH [OF d j] have "findIndex (\<lambda>r. f r = f (xs ! j)) xs = int j" .
    ultimately show ?thesis
      using Suc by (simp add: Let_def)
  qed
qed

lemma rowNumber_cell_nth:
  "distinct (map row_id rows) \<Longrightarrow> i < length rows \<Longrightarrow> rowNumber_cell rows (rows ! i) = int i + 1"
  by (simp add: rowNumber_cell_def findIndex_nth)

lemma map_rowNumber_cell:
  assumes "distinct (map row_id rows)"
  shows "map (rowNumber_cell rows) rows = map (\<lambda>i. int i + 1) [0..<length rows]"
proof (rule nth_equalityI)
  show "length (map (rowNumber_cell rows) rows) = length (map (\<lambda>i. int i + 1) [0..<length rows])"
    by simp
next
  fix i assume "i < length (map (rowNumber_cell rows) rows)"
  then have "i < length rows" by simp
  then show "map (rowNumber_cell rows) rows ! i = map (\<lambda>i. int i + 1) [0..<length rows] ! i"
    using assms by (simp add: rowNumber_cell_nth)
qed

lemma upto_as_map: "map (\<lambda>i. int i + 1) [0..<n] = [1..int n]"
proof (induction n)
  case 0
  then show ?case by simp
next
  case (Suc n)
  have "[1..int (Suc n)] = [1..int n] @ [int n + 1]"
    by (simp add: upto_rec2)
  with Suc show ?case by simp
qed

lemma mset_rowNumbers:
  assumes "distinct (map row_id (filteredRows lib s data))"
  shows "mset (rowNumbers lib s data) = mset [1..int (length (filteredRows lib s data))]"
proof -
  let ?F = "filteredRows lib s data"
  have "mset (rowNumbers lib s data) = image_mset (rowNumber_cell ?F) (mset (renderedRows lib s data))"
    by (simp add: rowNumbers_def)
  also have "\<dots> = image_mset (rowNumber_cell ?F) (mset ?F)"
    by (simp only: mset_renderedRows)
  also have "\<dots> = mset (map (rowNumber_cell ?F) ?F)"
    by simp
  also have "\<dots> = mset [1..int (length ?F)]"
    using assms by (simp only: map_rowNumber_cell upto_as_map)
  finally show ?thesis .
qed

lemma sample_filtered_ids:
  "map row_id (filteredRows sample_lib sample_state sample_data) = [''a'', ''c'']"
  by code_simp

lemma sample_rendered_ids:
  "map row_id (renderedRows sample_lib sample_state sample_data) = [''c'', ''a'']"
  by code_simp

lemma sample_rowNumbers: "rowNumbers sample_lib sample_state sample_data = [2, 1]"
  by code_simp

lemma sample_distinct:
  "distinct (map row_id (filteredRows sample_lib sample_state sample_data))"
  by (simp add: sample_filtered_ids)

text \<open>
  C3, at the input where the code departs from it: with the rows of the
  engineering department sorted by age, the rendered sequence is \<open>c\<close>, \<open>a\<close> and the
  cells show 2, 1: each row shows its position among the filtered rows in dataset
  order, where the claim has 1, 2, the positions in the rendered sequence.
\<close>

theorem rowNumbers_sorted_counterexample:
  "map row_id (filteredRows sample_lib sample_state sample_data) = [''a'', ''c'']
   \<and> map row_id (renderedRows sample_lib sample_state sample_data) = [''c'', ''a'']
   \<and> rowNumbers sample_lib sample_state sample_data = [2, 1]
   \<and> rowNumbers sample_lib sample_state sample_data
       \<noteq> map (\<lambda>j. int j + 1) [0..<length (renderedRows sample_lib sample_state sample_data)]"
proof -
  have "length (renderedRows sample_lib sample_state sample_data) = 2"
    by code_simp
  then have "map (\<lambda>j. int j + 1) [0..<length (renderedRows sample_lib sample_state sample_data)] = [1, 2]"
    by (simp add: upt_rec)
  then show ?thesis
    by (simp add: sample_filtered_ids sample_rendered_ids sample_rowNumbers)
qed

text \<open>
  C8, amended: when the ids of the filtered rows are pairwise distinct, the numbers
  shown in the rendered rows are, as a multiset, exactly 1 to n for n filtered
  rows, without gap or duplicate, and the rendered rows are the filtered rows, each
  once; this holds in every state, whatever the filters, sort keys and selection.
\<close>

theorem rowNumbers_exactly_1_to_n:
  assumes "distinct (map row_id (filteredRows lib s data))"
  shows "mset (rowNumbers lib s data) = mset [1..int (length (filteredRows lib s data))]
     \<and> distinct (rowNumbers lib s data)
     \<and> set (rowNumbers lib s data) = {1..int (length (filteredRows lib s data))}
     \<and> length (rowNumbers lib s data) = length (filteredRows lib s data)
     \<and> mset (renderedRows lib s data) = mset (filteredRows lib s data)"
proof -
  let ?n = "int (length (filteredRows lib s data))"
  have m: "mset (rowNumbers lib s data) = mset [1..?n]"
    using assms by (rule mset_rowNumbers)
  have d: "distinct (rowNumbers lib s data)"
    using mset_eq_imp_distinct_iff [OF m] by simp
  have st: "set (rowNumbers lib s data) = {1..?n}"
    using mset_eq_setD [OF m] by simp
  have l: "length (rowNumbers lib s data) = length (filteredRows lib s data)"
    using mset_eq_length [OF mset_renderedRows [of lib s data]] by (simp add: rowNumbers_def)
  show ?thesis
    by (intro conjI m d st l mset_renderedRows)
qed

text \<open>
  C8, as stated, fails: in the dataset \<^verbatim>\<open>[{ id: "1" }, { name: "x" }]\<close> the
  second record has no id and takes its position, 1, as identity, the same as
  the id of the first; both rows show the number 1, and no row shows 2.
\<close>

theorem rowNumbers_duplicate_id_counterexample:
  "map row_id (filteredRows sample_lib initial_state [[(''id'', JStr ''1'')], [(''name'', JStr ''x'')]])
     = [''1'', ''1'']
   \<and> rowNumbers sample_lib initial_state [[(''id'', JStr ''1'')], [(''name'', JStr ''x'')]] = [1, 1]"
  by code_simp

lemma sample_lengths:
  "length (filteredRows sample_lib sample_state sample_data) = 2"
  "length (renderedRows sample_lib sample_state sample_data) = 2"
  "length (renderedRows sample_lib initial_state sample_data) = 3"
  "sorting initial_state = []"
  by code_simp+

theorem rowNumbers_exactly_1_to_n_witness:
  "distinct (map row_id (filteredRows sample_lib sample_state sample_data))
   \<and> rowNumbers sample_lib sample_state sample_data = [2, 1]
   \<and> set (rowNumbers sample_lib sample_state sample_data) = {1..2}
   \<and> distinct (rowNumbers sample_lib sample_state sample_data)"
  using rowNumbers_exactly_1_to_n [OF sample_distinct] sample_distinct sample_rowNumbers
  by (simp add: sample_lengths)

subsection \<open>Selection\<close>

lemma map_of_replace:
  "map_of (map (\<lambda>(k', v'). if k' = k then (k', v) else (k', v')) kvs) x
     = (if x = k then (if k \<in> fst ` set kvs then Some v else None) else map_of kvs x)"
proof (induction kvs arbitrary: x)
  case Nil
  then show ?case by simp
next
  case (Cons e kvs)
  obtain k1 v1 where e: "e = (k1, v1)" by (cases e)
  show ?case
    using Cons.IH [of x] Cons.IH [of k] by (auto simp: e)
qed

lemma map_of_insert_index_key:
  "k \<notin> fst ` set kvs \<Longrightarrow>
   map_of (insert_index_key k v kvs) x = (if x = k then Some v else map_of kvs x)"
proof (induction kvs arbitrary: x)
  case Nil
  then show ?case by simp
next
  case (Cons e kvs)
  obtain k1 v1 where e: "e = (k1, v1)" by (cases e)
  from Cons.prems have ne: "k \<noteq> k1" and nin: "k \<notin> fst ` set kvs"
    by (simp_all add: e)
  show ?case
    using Cons.IH [OF nin, of x] Cons.IH [OF nin, of k] ne by (auto simp: e)
qed

lemma map_of_append_new:
  "k \<notin> fst ` set kvs \<Longrightarrow>
   map_of (kvs @ [(k, v)]) x = (if x = k then Some v else map_of kvs x)"
proof (induction kvs arbitrary: x)
  case Nil
  then show ?case by simp
next
  case (Cons e kvs)
  obtain k1 v1 where e: "e = (k1, v1)" by (cases e)
  from Cons.prems have ne: "k \<noteq> k1" and nin: "k \<notin> fst ` set kvs"
    by (simp_all add: e)
  show ?case
    using Cons.IH [OF nin, of x] Cons.IH [OF nin, of k] ne
    by (auto simp del: map_of_append simp add: e)
qed

lemma map_of_obj_set: "map_of (obj_set kvs k v) x = (if x = k then Some v else map_of kvs x)"
proof (cases "k \<in> fst ` set kvs")
  case True
  then show ?thesis
    by (simp add: obj_set_def map_of_replace)
next
  case False
  show ?thesis
  proof (cases "is_index_key k")
    case True
    with False show ?thesis
      by (simp add: obj_set_def map_of_insert_index_key)
  next
    case notIndex: False
    with False have "obj_set kvs k v = kvs @ [(k, v)]"
      by (simp add: obj_set_def)
    with map_of_append_new [OF False, of v x] show ?thesis
      by (simp only:)
  qed
qed

lemma map_of_obj_delete: "map_of (obj_delete kvs k) x = (if x = k then None else map_of kvs x)"
  by (induction kvs) (auto simp: obj_delete_def)

lemma fold_select:
  "map_of (fold (\<lambda>r m. obj_set m (row_id r) True) rows sel) k
     = (if k \<in> row_id ` set rows then Some True else map_of sel k)"
  by (induction rows arbitrary: sel) (auto simp: map_of_obj_set)

lemma fold_deselect:
  "map_of (fold (\<lambda>r m. obj_delete m (row_id r)) rows sel) k
     = (if k \<in> row_id ` set rows then None else map_of sel k)"
  by (induction rows arbitrary: sel) (auto simp: map_of_obj_delete)

lemma rowSelection_handleClearFilters [simp]:
  "rowSelection (handleClearFilters s) = rowSelection s"
  by (simp add: handleClearFilters_def)

lemma row_passes_no_filter [simp]: "row_passes lib [] [] d"
  by (simp add: row_passes_def)

lemma filteredRows_cleared [simp]:
  "filteredRows lib (handleClearFilters s) data = getCoreRowModel data"
  by (simp add: filteredRows_def handleClearFilters_def getFilteredRowModel_def)

lemma filteredRows_subset: "set (filteredRows lib s data) \<subseteq> set (getCoreRowModel data)"
  by (simp add: filteredRows_def getFilteredRowModel_def)

lemma filteredRows_clickSelectAll [simp]:
  "filteredRows lib (clickSelectAll lib data v s) data = filteredRows lib s data"
  by (simp add: filteredRows_def clickSelectAll_def)

lemma selection_after_select_all:
  "map_of (rowSelection (clickSelectAll lib data (Some True) s)) k
     = (if k \<in> row_id ` set (filteredRows lib s data) then Some True else map_of (rowSelection s) k)"
  by (simp add: clickSelectAll_def toggleAllRowsSelected_def fold_select)

lemma selection_after_deselect_all:
  "map_of (rowSelection (clickSelectAll lib data (Some False) s)) k
     = (if k \<in> row_id ` set (filteredRows lib s data) then None else map_of (rowSelection s) k)"
  by (simp add: clickSelectAll_def toggleAllRowsSelected_def fold_deselect)

lemma id_in_filtered:
  assumes "distinct (map row_id (getCoreRowModel data))" and "r \<in> set (getCoreRowModel data)"
  shows "row_id r \<in> row_id ` set (filteredRows lib s data) \<longleftrightarrow> r \<in> set (filteredRows lib s data)"
proof
  assume "row_id r \<in> row_id ` set (filteredRows lib s data)"
  then obtain r' where r': "r' \<in> set (filteredRows lib s data)" and eq: "row_id r = row_id r'"
    by auto
  from r' have "r' \<in> set (getCoreRowModel data)"
    using filteredRows_subset by auto
  with assms eq have "r = r'"
    by (simp add: distinct_map inj_on_def)
  with r' show "r \<in> set (filteredRows lib s data)" by simp
next
  assume "r \<in> set (filteredRows lib s data)"
  then show "row_id r \<in> row_id ` set (filteredRows lib s data)" by (rule imageI)
qed

text \<open>
  C2, as stated, fails: in a dataset where the second record has no id and takes
  its position, 1, as identity, the same as the id of the first, select-all under
  a filter that keeps only the second row also selects the first, which the filter
  excludes; after the filters are cleared every row of the dataset is selected.
\<close>

theorem select_all_colliding_ids_counterexample:
  "map row_id (getCoreRowModel colliding_data) = [''1'', ''1'']
   \<and> filteredRows sample_lib (tstate (run sample_lib colliding_data
        [FilterInput ''dept'' ''eng'', ApplyFilters] (mount sample_lib colliding_data))) colliding_data
      = [getCoreRowModel colliding_data ! 1]
   \<and> getIsSelected (rowSelection (tstate (run sample_lib colliding_data
        [FilterInput ''dept'' ''eng'', ApplyFilters, ToggleAllRows None]
        (mount sample_lib colliding_data)))) (getCoreRowModel colliding_data ! 0)
   \<and> list_all (getIsSelected (rowSelection (tstate (run sample_lib colliding_data
        [FilterInput ''dept'' ''eng'', ApplyFilters, ToggleAllRows None, ClearFilters]
        (mount sample_lib colliding_data)))))
        (filteredRows sample_lib (tstate (run sample_lib colliding_data
          [FilterInput ''dept'' ''eng'', ApplyFilters, ToggleAllRows None, ClearFilters]
          (mount sample_lib colliding_data))) colliding_data)
   \<and> length (filteredRows sample_lib (tstate (run sample_lib colliding_data
          [FilterInput ''dept'' ''eng'', ApplyFilters, ToggleAllRows None, ClearFilters]
          (mount sample_lib colliding_data))) colliding_data) = 2"
  by code_simp

text \<open>
  C2, amended: in a dataset whose row ids are pairwise distinct, select-all selects
  exactly the rows of the current filtered view on top of the selection there
  was (from an empty selection, the selected rows of the dataset are exactly the
  filtered rows, never the full dataset unless all rows pass), and turning it off
  deselects exactly the rows of the current filtered view: a row outside the
  filter keeps its selection state either way. Clearing the filters afterwards
  changes no selection: the selected rows of the full view are still the rows
  that had passed the filter.
\<close>

theorem select_all_scope:
  assumes d: "distinct (map row_id (getCoreRowModel data))"
    and r: "r \<in> set (getCoreRowModel data)"
  shows "(getIsSelected (rowSelection (clickSelectAll lib data (Some True) s)) r
          \<longleftrightarrow> r \<in> set (filteredRows lib s data) \<or> getIsSelected (rowSelection s) r)
     \<and> (getIsSelected (rowSelection (clickSelectAll lib data (Some False) s)) r
          \<longleftrightarrow> r \<notin> set (filteredRows lib s data) \<and> getIsSelected (rowSelection s) r)
     \<and> clickSelectAll lib data None s
          = clickSelectAll lib data
              (Some (\<not> getIsAllRowsSelected (filteredRows lib s data) (rowSelection s))) s
     \<and> (rowSelection s = [] \<longrightarrow>
          filter (getIsSelected (rowSelection (clickSelectAll lib data (Some True) s)))
            (getCoreRowModel data) = filteredRows lib s data)
     \<and> (rowSelection s = [] \<longrightarrow>
          getFilteredSelectedRowModel
            (rowSelection (handleClearFilters (clickSelectAll lib data (Some True) s)))
            (filteredRows lib (handleClearFilters (clickSelectAll lib data (Some True) s)) data)
          = filteredRows lib s data)
     \<and> rowSelection (handleClearFilters (clickSelectAll lib data v s))
          = rowSelection (clickSelectAll lib data v s)"
proof -
  have ids: "row_id x \<in> row_id ` set (filteredRows lib s data) \<longleftrightarrow> x \<in> set (filteredRows lib s data)"
    if "x \<in> set (getCoreRowModel data)" for x
    using d that by (rule id_in_filtered)
  have on_row: "getIsSelected (rowSelection (clickSelectAll lib data (Some True) s)) x
      \<longleftrightarrow> x \<in> set (filteredRows lib s data) \<or> getIsSelected (rowSelection s) x"
    if "x \<in> set (getCoreRowModel data)" for x
    using ids [OF that] by (simp add: getIsSelected_def selection_after_select_all)
  have off_row: "getIsSelected (rowSelection (clickSelectAll lib data (Some False) s)) x
      \<longleftrightarrow> x \<notin> set (filteredRows lib s data) \<and> getIsSelected (rowSelection s) x"
    if "x \<in> set (getCoreRowModel data)" for x
    using ids [OF that] by (simp add: getIsSelected_def selection_after_deselect_all)
  have tog: "clickSelectAll lib data None s
      = clickSelectAll lib data
          (Some (\<not> getIsAllRowsSelected (filteredRows lib s data) (rowSelection s))) s"
    by (simp add: clickSelectAll_def toggleAllRowsSelected_def)
  have exact: "filter (getIsSelected (rowSelection (clickSelectAll lib data (Some True) s)))
      (getCoreRowModel data) = filteredRows lib s data" if e: "rowSelection s = []"
  proof -
    have "filter (getIsSelected (rowSelection (clickSelectAll lib data (Some True) s)))
        (getCoreRowModel data)
      = filter (\<lambda>x. row_passes lib (columnFilters s) (globalFilter s) (original x))
        (getCoreRowModel data)"
    proof (rule filter_cong [OF refl])
      fix x assume x: "x \<in> set (getCoreRowModel data)"
      have "getIsSelected (rowSelection (clickSelectAll lib data (Some True) s)) x
          \<longleftrightarrow> x \<in> set (filteredRows lib s data)"
        using on_row [OF x] e by (simp add: getIsSelected_def)
      also have "\<dots> \<longleftrightarrow> row_passes lib (columnFilters s) (globalFilter s) (original x)"
        using x by (simp add: filteredRows_def getFilteredRowModel_def)
      finally show "getIsSelected (rowSelection (clickSelectAll lib data (Some True) s)) x
          = row_passes lib (columnFilters s) (globalFilter s) (original x)" .
    qed
    then show ?thesis by (simp add: filteredRows_def getFilteredRowModel_def)
  qed
  have cleared: "getFilteredSelectedRowModel
        (rowSelection (handleClearFilters (clickSelectAll lib data (Some True) s)))
        (filteredRows lib (handleClearFilters (clickSelectAll lib data (Some True) s)) data)
      = filteredRows lib s data" if e: "rowSelection s = []"
    using exact [OF e] by (simp add: getFilteredSelectedRowModel_def)
  have clr: "rowSelection (handleClearFilters (clickSelectAll lib data v s))
      = rowSelection (clickSelectAll lib data v s)"
    by simp
  show ?thesis
    using on_row [OF r] off_row [OF r] tog exact cleared clr by (intro conjI impI)
qed

lemma sample_core_distinct: "distinct (map row_id (getCoreRowModel sample_data))"
  by code_simp

lemma sample_core_member: "getCoreRowModel sample_data ! 1 \<in> set (getCoreRowModel sample_data)"
  by code_simp

theorem select_all_scope_witness:
  "distinct (map row_id (getCoreRowModel sample_data))
   \<and> getCoreRowModel sample_data ! 1 \<in> set (getCoreRowModel sample_data)
   \<and> getCoreRowModel sample_data ! 1 \<notin> set (filteredRows sample_lib sample_state sample_data)
   \<and> getIsSelected (rowSelection (clickSelectAll sample_lib sample_data (Some True) sample_state))
        (getCoreRowModel sample_data ! 1) = False
   \<and> map row_id (filter
        (getIsSelected (rowSelection (clickSelectAll sample_lib sample_data (Some True) sample_state)))
        (getCoreRowModel sample_data)) = [''a'', ''c'']
   \<and> rowSelection (clickSelectAll sample_lib sample_data (Some True) sample_state)
        = [(''a'', True), (''c'', True)]"
proof -
  have out: "getCoreRowModel sample_data ! 1 \<notin> set (filteredRows sample_lib sample_state sample_data)"
    by code_simp
  have unsel: "getIsSelected (rowSelection sample_state) (getCoreRowModel sample_data ! 1) = False"
    by code_simp
  have empty: "rowSelection sample_state = []"
    by code_simp
  note t = select_all_scope [OF sample_core_distinct sample_core_member,
      of sample_lib sample_state None]
  have row: "getIsSelected (rowSelection (clickSelectAll sample_lib sample_data (Some True) sample_state))
        (getCoreRowModel sample_data ! 1) = False"
    using t [THEN conjunct1] out unsel by simp
  have "filter (getIsSelected (rowSelection (clickSelectAll sample_lib sample_data (Some True) sample_state)))
        (getCoreRowModel sample_data) = filteredRows sample_lib sample_state sample_data"
    using t [THEN conjunct2, THEN conjunct2, THEN conjunct2, THEN conjunct1] empty by (rule mp)
  then have rows: "map row_id (filter
        (getIsSelected (rowSelection (clickSelectAll sample_lib sample_data (Some True) sample_state)))
        (getCoreRowModel sample_data)) = [''a'', ''c'']"
    by (simp only: sample_filtered_ids)
  have sel: "rowSelection (clickSelectAll sample_lib sample_data (Some True) sample_state)
        = [(''a'', True), (''c'', True)]"
    by code_simp
  show ?thesis
    by (intro conjI sample_core_distinct sample_core_member out row rows sel)
qed

text \<open>
  C1, at the input where the code departs from it: row \<open>b\<close> is selected, then a
  filter that excludes \<open>b\<close> is applied, then the filters are cleared. \<open>b\<close> stays in
  the selection state throughout. While the filter excludes \<open>b\<close>, the filtered view
  does not hold \<open>b\<close> and the rows of that view whose id is selected are none, but
  \<^verbatim>\<open>selectedRowsData\<close> still holds \<open>b\<close>: it is the value computed when the
  selection last changed.
\<close>

theorem selectedRowsData_stale_under_filter:
  "getIsSelected (rowSelection (tstate (run sample_lib sample_data
      [ToggleRow (getCoreRowModel sample_data ! 1) (Some True)]
      (mount sample_lib sample_data)))) (getCoreRowModel sample_data ! 1)
   \<and> getIsSelected (rowSelection (tstate (run sample_lib sample_data
      [ToggleRow (getCoreRowModel sample_data ! 1) (Some True), FilterInput ''dept'' ''eng'', ApplyFilters]
      (mount sample_lib sample_data)))) (getCoreRowModel sample_data ! 1)
   \<and> map row_id (filteredRows sample_lib (tstate (run sample_lib sample_data
      [ToggleRow (getCoreRowModel sample_data ! 1) (Some True), FilterInput ''dept'' ''eng'', ApplyFilters]
      (mount sample_lib sample_data))) sample_data) = [''a'', ''c'']
   \<and> computeSelectedRows sample_lib (tstate (run sample_lib sample_data
      [ToggleRow (getCoreRowModel sample_data ! 1) (Some True), FilterInput ''dept'' ''eng'', ApplyFilters]
      (mount sample_lib sample_data))) sample_data = []
   \<and> selectedRowsData (run sample_lib sample_data
      [ToggleRow (getCoreRowModel sample_data ! 1) (Some True), FilterInput ''dept'' ''eng'', ApplyFilters]
      (mount sample_lib sample_data)) = [sample_data ! 1]
   \<and> getIsSelected (rowSelection (tstate (run sample_lib sample_data
      [ToggleRow (getCoreRowModel sample_data ! 1) (Some True), FilterInput ''dept'' ''eng'', ApplyFilters,
       ClearFilters]
      (mount sample_lib sample_data)))) (getCoreRowModel sample_data ! 1)
   \<and> selectedRowsData (run sample_lib sample_data
      [ToggleRow (getCoreRowModel sample_data ! 1) (Some True), FilterInput ''dept'' ''eng'', ApplyFilters,
       ClearFilters]
      (mount sample_lib sample_data)) = [sample_data ! 1]"
  by code_simp

end
